theory Spec2Isabelle
  imports Complex_Main "HOL-Library.Sublist"
begin

section \<open>Float search and date-range logic of the map view\<close>

text \<open>
  The development embeds the search and date-filter logic of
  \<^verbatim>\<open>frontend/src/components/MapView.tsx\<close>: the year extraction
  (\<^verbatim>\<open>extractDateFilterFromSearch\<close>), the fetch of the float collection
  (\<^verbatim>\<open>fetchArgoFloats\<close>) and the effect that filters the collection by the
  search term.

  Conventions of the embedding.
  \<^item> A JavaScript string is a \<open>string\<close>, the list of the bytes of its UTF-8 text: an
    ASCII character is one byte, any other character two to four bytes from \<open>0x80\<close>
    upwards. \<^verbatim>\<open>trim\<close> strips every white space and line terminator character of
    ECMAScript, the ones outside ASCII included. \<^verbatim>\<open>toLowerCase\<close> maps \<open>A\<close>..\<open>Z\<close>
    to \<open>a\<close>..\<open>z\<close>; letters outside ASCII are left as they are.
  \<^item> A finite JavaScript number is taken at its exact value, a rational number;
    comparisons of finite doubles are exact, and \<^verbatim>\<open>toFixed\<close> rounds the exact
    value. \<open>NaN\<close> and the infinities do not occur in the latitude and longitude
    of a float (the JSON text the collection is parsed from has no literal for them).
  \<^item> The cycle number is an integer; for the integers a double holds exactly,
    \<^verbatim>\<open>toString\<close> is the decimal numeral.
\<close>

subsection \<open>Data model\<close>

text \<open>
  \<^verbatim>\<open>interface ArgoFloat\<close>. The record is extensible: a float parsed from JSON may
  carry further fields (for instance an oxygen value or a region label), which live in
  the \<open>more\<close> part of the record scheme.
\<close>

record argo_float =
  float_id :: string
  lat :: rat
  lon :: rat
  temperature :: "rat option"
  salinity :: "rat option"
  pressure :: "rat option"
  cycle :: "int option"
  time :: "string option"
  status :: string

text \<open>The component state that the fetch and the search effect read and write.\<close>

record 'a map_view =
  argoFloats :: "'a argo_float_scheme list"
  filteredFloats :: "'a argo_float_scheme list"
  loading :: bool
  error :: "string option"
  searchTerm :: string
  startDate :: string
  endDate :: string

subsection \<open>Strings\<close>

definition is_upper :: "char \<Rightarrow> bool" where
  "is_upper c = (65 \<le> (of_char c :: nat) \<and> (of_char c :: nat) \<le> 90)"

definition is_lower :: "char \<Rightarrow> bool" where
  "is_lower c = (97 \<le> (of_char c :: nat) \<and> (of_char c :: nat) \<le> 122)"

definition is_digit :: "char \<Rightarrow> bool" where
  "is_digit c = (48 \<le> (of_char c :: nat) \<and> (of_char c :: nat) \<le> 57)"

text \<open>The class \<^verbatim>\<open>\w\<close> of a regular expression without the unicode flag.\<close>

definition is_word_char :: "char \<Rightarrow> bool" where
  "is_word_char c = (is_upper c \<or> is_lower c \<or> is_digit c \<or> c = CHR ''_'')"

definition lower_char :: "char \<Rightarrow> char" where
  "lower_char c = (if is_upper c then char_of ((of_char c :: nat) + 32) else c)"

definition toLowerCase :: "string \<Rightarrow> string" where
  "toLowerCase s = map lower_char s"

text \<open>
  The characters that \<^verbatim>\<open>trim\<close> strips, by code point (ECMAScript, White Space and
  Line Terminators): TAB, LF, VT, FF, CR, SP, NBSP, the other space separators
  \<open>U+1680\<close>, \<open>U+2000\<close>..\<open>U+200A\<close>, \<open>U+202F\<close>, \<open>U+205F\<close>, \<open>U+3000\<close>, the line and
  paragraph separators \<open>U+2028\<close>, \<open>U+2029\<close>, and \<open>U+FEFF\<close>.
\<close>

definition white_space_points :: "nat list" where
  "white_space_points =
     [0x09, 0x0A, 0x0B, 0x0C, 0x0D, 0x20, 0xA0, 0x1680,
      0x2000, 0x2001, 0x2002, 0x2003, 0x2004, 0x2005, 0x2006, 0x2007, 0x2008, 0x2009, 0x200A,
      0x2028, 0x2029, 0x202F, 0x205F, 0x3000, 0xFEFF]"

text \<open>The byte values of the UTF-8 text of a code point.\<close>

definition utf8 :: "nat \<Rightarrow> nat list" where
  "utf8 cp =
     (if cp < 0x80 then [cp]
      else if cp < 0x800 then [0xC0 + cp div 64, 0x80 + cp mod 64]
      else if cp < 0x10000 then
        [0xE0 + cp div 4096, 0x80 + cp div 64 mod 64, 0x80 + cp mod 64]
      else
        [0xF0 + cp div 262144, 0x80 + cp div 4096 mod 64, 0x80 + cp div 64 mod 64,
         0x80 + cp mod 64])"

text \<open>The same characters as they stand in a string, in the order of the list above.\<close>

definition white_space :: "string list" where
  "white_space =
     [[CHR 0x09], [CHR 0x0A], [CHR 0x0B], [CHR 0x0C], [CHR 0x0D], [CHR 0x20],
      [CHR 0xC2, CHR 0xA0], [CHR 0xE1, CHR 0x9A, CHR 0x80],
      [CHR 0xE2, CHR 0x80, CHR 0x80], [CHR 0xE2, CHR 0x80, CHR 0x81],
      [CHR 0xE2, CHR 0x80, CHR 0x82], [CHR 0xE2, CHR 0x80, CHR 0x83],
      [CHR 0xE2, CHR 0x80, CHR 0x84], [CHR 0xE2, CHR 0x80, CHR 0x85],
      [CHR 0xE2, CHR 0x80, CHR 0x86], [CHR 0xE2, CHR 0x80, CHR 0x87],
      [CHR 0xE2, CHR 0x80, CHR 0x88], [CHR 0xE2, CHR 0x80, CHR 0x89],
      [CHR 0xE2, CHR 0x80, CHR 0x8A], [CHR 0xE2, CHR 0x80, CHR 0xA8],
      [CHR 0xE2, CHR 0x80, CHR 0xA9], [CHR 0xE2, CHR 0x80, CHR 0xAF],
      [CHR 0xE2, CHR 0x81, CHR 0x9F], [CHR 0xE3, CHR 0x80, CHR 0x80],
      [CHR 0xEF, CHR 0xBB, CHR 0xBF]]"

text \<open>
  The number of bytes of the white space character that \<open>s\<close> starts with, respectively
  ends with; \<open>0\<close> when there is none.
\<close>

definition leading_space :: "string \<Rightarrow> nat" where
  "leading_space s =
     (case find (\<lambda>w. prefix w s) white_space of None \<Rightarrow> 0 | Some w \<Rightarrow> length w)"

definition trailing_space :: "string \<Rightarrow> nat" where
  "trailing_space s =
     (case find (\<lambda>w. suffix w s) white_space of None \<Rightarrow> 0 | Some w \<Rightarrow> length w)"

text \<open>\<^verbatim>\<open>trim\<close>: white space is taken off the start, then off the end, one character at a time.\<close>

function trimStart :: "string \<Rightarrow> string" where
  "trimStart s =
     (if leading_space s = 0 then s else trimStart (drop (leading_space s) s))"
  by pat_completeness auto
termination
proof (relation "measure length")
  fix s
  assume some: "leading_space s \<noteq> 0"
  then obtain w where found: "find (\<lambda>w. prefix w s) white_space = Some w"
    and len: "leading_space s = length w"
    by (auto simp: leading_space_def split: option.splits)
  have "P x" if "find P xs = Some x" for P xs and x :: string
    using that by (induction xs) (auto split: if_splits)
  from this [OF found] have "prefix w s" .
  then have "length w \<le> length s"
    by (rule prefix_length_le)
  with some len have pos: "0 < leading_space s" and "leading_space s \<le> length s"
    by simp_all
  then have "0 < length s"
    by (rule less_le_trans)
  with pos have "length s - leading_space s < length s"
    by (rule diff_less)
  then show "(drop (leading_space s) s, s) \<in> measure length"
    by simp
qed simp

function trimEnd :: "string \<Rightarrow> string" where
  "trimEnd s =
     (if trailing_space s = 0 then s else trimEnd (take (length s - trailing_space s) s))"
  by pat_completeness auto
termination
proof (relation "measure length")
  fix s
  assume some: "trailing_space s \<noteq> 0"
  then obtain w where found: "find (\<lambda>w. suffix w s) white_space = Some w"
    and len: "trailing_space s = length w"
    by (auto simp: trailing_space_def split: option.splits)
  have "P x" if "find P xs = Some x" for P xs and x :: string
    using that by (induction xs) (auto split: if_splits)
  from this [OF found] have "suffix w s" .
  then have "length w \<le> length s"
    by (rule suffix_length_le)
  with some len have pos: "0 < trailing_space s" and "trailing_space s \<le> length s"
    by simp_all
  then have "0 < length s"
    by (rule less_le_trans)
  with pos have "length s - trailing_space s < length s"
    by (rule diff_less)
  then show "(take (length s - trailing_space s) s, s) \<in> measure length"
    by simp
qed simp

declare trimStart.simps [simp del] trimEnd.simps [simp del]

definition trim :: "string \<Rightarrow> string" where
  "trim s = trimEnd (trimStart s)"

text \<open>\<^verbatim>\<open>s.includes(t)\<close>: \<open>t\<close> occurs in \<open>s\<close> as a contiguous substring.\<close>

fun str_includes :: "string \<Rightarrow> string \<Rightarrow> bool" where
  "str_includes [] t = (t = [])"
| "str_includes (c # cs) t = (prefix t (c # cs) \<or> str_includes cs t)"

subsection \<open>Numbers to strings\<close>

definition digit_char :: "nat \<Rightarrow> char" where
  "digit_char d = char_of (48 + d)"

text \<open>The decimal numeral of a natural number, without leading zeroes (\<open>0\<close> is \<open>''0''\<close>).\<close>

fun digits :: "nat \<Rightarrow> string" where
  "digits n = (if n < 10 then [digit_char n] else digits (n div 10) @ [digit_char (n mod 10)])"

declare digits.simps [simp del]

text \<open>
  \<^verbatim>\<open>Number.prototype.toFixed(f)\<close> for a finite number below \<open>10^21\<close> in magnitude
  (ECMAScript, 21.1.3.3): the sign is split off, \<open>n\<close> is the integer nearest to
  \<open>x * 10^f\<close> (the larger one at a tie), its numeral is padded with zeroes to \<open>f + 1\<close>
  digits, and the point is put before the last \<open>f\<close> digits. The sign is kept when the
  digits round to zero. (From \<open>10^21\<close> on JavaScript switches to exponent notation,
  which is outside the model; a latitude or longitude is far below.)
\<close>

definition toFixed :: "nat \<Rightarrow> rat \<Rightarrow> string" where
  "toFixed f x =
     (let s = (if x < 0 then ''-'' else '''');
          n = nat \<lfloor>\<bar>x\<bar> * 10 ^ f + 1 / 2\<rfloor>;
          m = digits n;
          m = (if length m \<le> f then replicate (f + 1 - length m) CHR ''0'' @ m else m);
          k = length m
      in if f \<noteq> 0 then s @ take (k - f) m @ ''.'' @ drop (k - f) m else s @ m)"

text \<open>\<^verbatim>\<open>toString\<close> of an integer-valued number: a minus sign and the decimal numeral.\<close>

definition toString :: "int \<Rightarrow> string" where
  "toString c = (if c < 0 then ''-'' else '''') @ digits (nat \<bar>c\<bar>)"

subsection \<open>Year extraction\<close>

text \<open>
  \<^verbatim>\<open>term.match(/\b(20\d{2})\b/)\<close>. \<open>year_at s\<close> holds when \<open>s\<close> starts with
  \<^verbatim>\<open>20\d{2}\<close> followed by a word boundary: the fourth character is a word character,
  so the boundary asks for the end of the string or a non-word character.
\<close>

fun year_at :: "string \<Rightarrow> bool" where
  "year_at (a # b # c # d # rest) =
     (a = CHR ''2'' \<and> b = CHR ''0'' \<and> is_digit c \<and> is_digit d \<and>
      (case rest of [] \<Rightarrow> True | e # _ \<Rightarrow> \<not> is_word_char e))"
| "year_at _ = False"

text \<open>
  The leftmost match. \<open>pw\<close> tells whether the character before the current position
  is a word character (\<open>False\<close> at the start of the string): the match starts with the
  word character \<open>2\<close>, so the leading boundary asks for \<open>\<not> pw\<close>. The result is the
  captured group, the four characters of the year.
\<close>

fun year_search :: "bool \<Rightarrow> string \<Rightarrow> string option" where
  "year_search pw [] = None"
| "year_search pw (c # cs) =
     (if \<not> pw \<and> year_at (c # cs) then Some (take 4 (c # cs))
      else year_search (is_word_char c) cs)"

text \<open>The result is the pair \<open>(startDate, endDate)\<close>, \<open>None\<close> for \<^verbatim>\<open>null\<close>.\<close>

definition extractDateFilterFromSearch :: "string \<Rightarrow> (string \<times> string) option" where
  "extractDateFilterFromSearch term =
     (case year_search False term of
        Some year \<Rightarrow> Some (year @ ''-01-01'', year @ ''-12-31'')
      | None \<Rightarrow> None)"

subsection \<open>The search matcher\<close>

text \<open>
  The callback of \<^verbatim>\<open>argoFloats.filter\<close>, applied to one float and the lower-cased,
  trimmed term. Each \<^verbatim>\<open>if (...) return ...\<close> of the source is one branch, in the
  source's order. \<open>cycle_check\<close> is the condition
  \<^verbatim>\<open>float.cycle && float.cycle.toString().includes(term)\<close>, whose first operand is a
  truthiness test: \<^verbatim>\<open>null\<close> and \<open>0\<close> are both falsy.
\<close>

definition cycle_check :: "'a argo_float_scheme \<Rightarrow> string \<Rightarrow> bool" where
  "cycle_check float term =
     (case cycle float of None \<Rightarrow> False
      | Some c \<Rightarrow> c \<noteq> 0 \<and> str_includes (toString c) term)"

definition search_match :: "'a argo_float_scheme \<Rightarrow> string \<Rightarrow> bool" where
  "search_match float term =
     (if str_includes (toLowerCase (float_id float)) term then True
      else if str_includes (toFixed 1 (lat float) @ '','' @ toFixed 1 (lon float)) term then True
      else if str_includes (toFixed 0 (lat float) @ '','' @ toFixed 0 (lon float)) term then True
      else if cycle_check float term then True
      else if str_includes term ''atlantic'' then
        lon float \<ge> -70 \<and> lon float \<le> 20 \<and> \<bar>lat float\<bar> \<le> 60
      else if str_includes term ''pacific'' then
        (lon float \<ge> 120 \<or> lon float \<le> -70) \<and> \<bar>lat float\<bar> \<le> 60
      else if str_includes term ''indian'' then
        lon float \<ge> 20 \<and> lon float \<le> 120 \<and> lat float \<ge> -60 \<and> lat float \<le> 30
      else if str_includes term ''north'' \<or> term = ''arctic'' then
        lat float > 23
      else if str_includes term ''south'' \<or> term = ''antarctic'' then
        lat float < -23
      else if str_includes term ''equatorial'' \<or> term = ''equator'' then
        \<bar>lat float\<bar> \<le> 23
      else False)"

subsection \<open>The search effect\<close>

text \<open>
  The effect that runs when the search term or the collection changes: a year in the
  raw term overwrites the date range; a blank term shows the whole collection, any
  other term the floats that match it.
\<close>

definition search_effect :: "'a map_view \<Rightarrow> 'a map_view" where
  "search_effect st =
     (let st1 = (case extractDateFilterFromSearch (searchTerm st) of
                   Some dateFilters \<Rightarrow>
                     st\<lparr>startDate := fst dateFilters, endDate := snd dateFilters\<rparr>
                 | None \<Rightarrow> st)
      in if trim (searchTerm st) = [] then st1\<lparr>filteredFloats := argoFloats st\<rparr>
         else st1\<lparr>filteredFloats :=
                filter (\<lambda>float. search_match float (trim (toLowerCase (searchTerm st))))
                  (argoFloats st)\<rparr>)"

subsection \<open>Fetching the collection\<close>

text \<open>
  The server behind \<^verbatim>\<open>/floats/locations\<close> is not part of the component: it is a
  parameter, a function from the query parameters to what \<^verbatim>\<open>fetch\<close> and
  \<^verbatim>\<open>response.json()\<close> deliver. \<open>Rejected\<close> stands for a promise that rejects
  (with the message of the \<^verbatim>\<open>Error\<close>, or \<open>None\<close> when the value thrown is not an
  \<^verbatim>\<open>Error\<close>); \<open>Response ok code data\<close> for a response with \<^verbatim>\<open>response.ok\<close>,
  \<^verbatim>\<open>response.status\<close> and the parsed body.
\<close>

record 'a api_body =
  body_status :: string
  body_floats :: "'a argo_float_scheme list"
  body_message :: "string option"

datatype 'a fetch_result =
    Rejected "string option"
  | Response bool nat "'a api_body"

text \<open>The entries of the \<^verbatim>\<open>URLSearchParams\<close>, in the order they are set.\<close>

definition request_params :: "('a, 'z) map_view_scheme \<Rightarrow> (string \<times> string) list" where
  "request_params st =
     (if startDate st \<noteq> ''2015-01-01'' then [(''start_date'', startDate st)] else []) @
     (if endDate st \<noteq> ''2024-12-31'' then [(''end_date'', endDate st)] else [])"

text \<open>
  \<^verbatim>\<open>fetchArgoFloats\<close>: every \<^verbatim>\<open>throw\<close> inside the \<^verbatim>\<open>try\<close> ends in the
  \<^verbatim>\<open>catch\<close>, which stores the message; \<^verbatim>\<open>finally\<close> clears the loading flag.
\<close>

definition fetchArgoFloats ::
  "'a map_view \<Rightarrow> ((string \<times> string) list \<Rightarrow> 'a fetch_result) \<Rightarrow> 'a map_view" where
  "fetchArgoFloats st server =
     (case server (request_params st) of
        Rejected msg \<Rightarrow>
          st\<lparr>error := Some (case msg of Some m \<Rightarrow> m | None \<Rightarrow> ''Failed to load map data''),
             loading := False\<rparr>
      | Response ok code data \<Rightarrow>
          if \<not> ok then
            st\<lparr>error := Some (''Failed to fetch: '' @ digits code), loading := False\<rparr>
          else if body_status data = ''success'' then
            st\<lparr>argoFloats := body_floats data, loading := False\<rparr>
          else
            st\<lparr>error := Some (case body_message data of
                                 None \<Rightarrow> ''Failed to load float data''
                               | Some m \<Rightarrow> if m = [] then ''Failed to load float data'' else m),
               loading := False\<rparr>)"

text \<open>The fetch went through: a response that is ok and reports success.\<close>

definition fetch_succeeds :: "'a fetch_result \<Rightarrow> bool" where
  "fetch_succeeds res =
     (case res of Rejected msg \<Rightarrow> False
      | Response ok code data \<Rightarrow> ok \<and> body_status data = ''success'')"

text \<open>The floats a response carries (none when the fetch was rejected).\<close>

definition response_floats :: "'a fetch_result \<Rightarrow> 'a argo_float_scheme list" where
  "response_floats res =
     (case res of Rejected msg \<Rightarrow> [] | Response ok code data \<Rightarrow> body_floats data)"

subsection \<open>Notions of the specification\<close>

text \<open>
  The five match rules as the specification words them (section 4.3), and their
  disjunction. They are compared with \<open>search_match\<close> below.
\<close>

datatype keyword = Atlantic | Pacific | Indian | North | South | Equatorial

text \<open>The term names the keyword.\<close>

fun keyword_in :: "keyword \<Rightarrow> string \<Rightarrow> bool" where
  "keyword_in Atlantic t = str_includes t ''atlantic''"
| "keyword_in Pacific t = str_includes t ''pacific''"
| "keyword_in Indian t = str_includes t ''indian''"
| "keyword_in North t = (str_includes t ''north'' \<or> t = ''arctic'')"
| "keyword_in South t = (str_includes t ''south'' \<or> t = ''antarctic'')"
| "keyword_in Equatorial t = (str_includes t ''equatorial'' \<or> t = ''equator'')"

text \<open>The bounding rule of a keyword (section 4.2), on a latitude and a longitude.\<close>

fun keyword_holds :: "keyword \<Rightarrow> rat \<Rightarrow> rat \<Rightarrow> bool" where
  "keyword_holds Atlantic la lo = (-70 \<le> lo \<and> lo \<le> 20 \<and> \<bar>la\<bar> \<le> 60)"
| "keyword_holds Pacific la lo = ((lo \<ge> 120 \<or> lo \<le> -70) \<and> \<bar>la\<bar> \<le> 60)"
| "keyword_holds Indian la lo = (20 \<le> lo \<and> lo \<le> 120 \<and> -60 \<le> la \<and> la \<le> 30)"
| "keyword_holds North la lo = (la > 23)"
| "keyword_holds South la lo = (la < -23)"
| "keyword_holds Equatorial la lo = (\<bar>la\<bar> \<le> 23)"

definition id_rule :: "'a argo_float_scheme \<Rightarrow> string \<Rightarrow> bool" where
  "id_rule r t = str_includes (toLowerCase (float_id r)) t"

definition coord_rule :: "'a argo_float_scheme \<Rightarrow> string \<Rightarrow> bool" where
  "coord_rule r t =
     (str_includes (toFixed 1 (lat r) @ '','' @ toFixed 1 (lon r)) t \<or>
      str_includes (toFixed 0 (lat r) @ '','' @ toFixed 0 (lon r)) t)"

definition cycle_rule :: "'a argo_float_scheme \<Rightarrow> string \<Rightarrow> bool" where
  "cycle_rule r t =
     (case cycle r of None \<Rightarrow> False | Some c \<Rightarrow> str_includes (toString c) t)"

definition region_rule :: "'a argo_float_scheme \<Rightarrow> string \<Rightarrow> bool" where
  "region_rule r t =
     list_ex (\<lambda>k. keyword_in k t \<and> keyword_holds k (lat r) (lon r)) [Atlantic, Pacific, Indian]"

definition band_rule :: "'a argo_float_scheme \<Rightarrow> string \<Rightarrow> bool" where
  "band_rule r t =
     list_ex (\<lambda>k. keyword_in k t \<and> keyword_holds k (lat r) (lon r)) [North, South, Equatorial]"

definition spec_match :: "'a argo_float_scheme \<Rightarrow> string \<Rightarrow> bool" where
  "spec_match r t =
     (id_rule r t \<or> coord_rule r t \<or> cycle_rule r t \<or> region_rule r t \<or> band_rule r t)"

text \<open>The first keyword a term names, in the order in which the matcher asks for them.\<close>

definition first_keyword :: "string \<Rightarrow> keyword option" where
  "first_keyword t =
     find (\<lambda>k. keyword_in k t) [Atlantic, Pacific, Indian, North, South, Equatorial]"

text \<open>
  Year tokens by position: \<open>year_pattern_at s i\<close> says that the digits \<^verbatim>\<open>20\d{2}\<close>
  stand at index \<open>i\<close> of \<open>s\<close>; \<open>word_before\<close> and \<open>word_after\<close> say that a word
  character stands immediately before, respectively after, these four characters. A
  year token is a pattern with neither.
\<close>

definition year_pattern_at :: "string \<Rightarrow> nat \<Rightarrow> bool" where
  "year_pattern_at s i =
     (case drop i s of
        a # b # c # d # rest \<Rightarrow> a = CHR ''2'' \<and> b = CHR ''0'' \<and> is_digit c \<and> is_digit d
      | _ \<Rightarrow> False)"

definition word_before :: "string \<Rightarrow> nat \<Rightarrow> bool" where
  "word_before s i = (0 < i \<and> is_word_char (s ! (i - 1)))"

definition word_after :: "string \<Rightarrow> nat \<Rightarrow> bool" where
  "word_after s i = (i + 4 < length s \<and> is_word_char (s ! (i + 4)))"

definition year_token_at :: "string \<Rightarrow> nat \<Rightarrow> bool" where
  "year_token_at s i = (year_pattern_at s i \<and> \<not> word_before s i \<and> \<not> word_after s i)"

text \<open>
  The same for a suffix of the term: \<open>pw\<close> tells whether a word character stands before
  the suffix.
\<close>

definition year_token_from :: "bool \<Rightarrow> string \<Rightarrow> nat \<Rightarrow> bool" where
  "year_token_from pw s i =
     (year_pattern_at s i \<and> \<not> (if i = 0 then pw else is_word_char (s ! (i - 1))) \<and>
      \<not> word_after s i)"

text \<open>
  The order of the relational operators on strings (by character code, a proper prefix
  first). On dates in the form \<^verbatim>\<open>YYYY-MM-DD\<close> it is the order of the calendar.
\<close>

fun str_less :: "string \<Rightarrow> string \<Rightarrow> bool" where
  "str_less [] [] = False"
| "str_less [] (y # ys) = True"
| "str_less (x # xs) [] = False"
| "str_less (x # xs) (y # ys) =
     ((of_char x :: nat) < of_char y \<or> (x = y \<and> str_less xs ys))"

text \<open>The characters a formatted number or coordinate pair can contain.\<close>

definition numeric_char :: "char \<Rightarrow> bool" where
  "numeric_char c = (is_digit c \<or> c = CHR ''-'' \<or> c = CHR ''.'' \<or> c = CHR '','')"

subsection \<open>Example data\<close>

text \<open>The two floats of the scenario in section 8 of the specification.\<close>

definition float_A :: argo_float where
  "float_A = \<lparr>float_id = ''A'', lat = 10, lon = -140, temperature = None, salinity = None,
     pressure = None, cycle = Some 5, time = Some ''2020-06-01'', status = ''active''\<rparr>"

definition float_B :: argo_float where
  "float_B = \<lparr>float_id = ''B'', lat = -40, lon = 0, temperature = None, salinity = None,
     pressure = None, cycle = Some 9, time = Some ''2021-06-01'', status = ''active''\<rparr>"

text \<open>The component after the two floats were loaded, with the initial term and dates.\<close>

definition view0 :: "unit map_view" where
  "view0 = \<lparr>argoFloats = [float_A, float_B], filteredFloats = [], loading = False,
     error = None, searchTerm = [], startDate = ''2015-01-01'', endDate = ''2024-12-31''\<rparr>"

text \<open>A term of a space, a no-break space, a tabulator and an em space (\<open>U+2003\<close>).\<close>

definition blank_term :: string where
  "blank_term = [CHR 0x20, CHR 0xC2, CHR 0xA0, CHR 0x09, CHR 0xE2, CHR 0x80, CHR 0x83]"

text \<open>
  A float north of the tropic in the Atlantic box, a float whose cycle number is zero,
  and the float of the identifier example at a position in the Pacific box.
\<close>

definition float_N :: argo_float where
  "float_N = \<lparr>float_id = ''A1'', lat = 30, lon = 0, temperature = None, salinity = None,
     pressure = None, cycle = None, time = None, status = ''active''\<rparr>"

definition float_Z :: argo_float where
  "float_Z = \<lparr>float_id = ''A'', lat = 23 / 2, lon = 25 / 2, temperature = None,
     salinity = None, pressure = None, cycle = Some 0, time = None, status = ''active''\<rparr>"

definition float_W :: argo_float where
  "float_W = \<lparr>float_id = ''WMO_2021_PAC_042'', lat = -35, lon = 150, temperature = None,
     salinity = None, pressure = None, cycle = Some 42, time = None, status = ''active''\<rparr>"

text \<open>
  A component whose start date lies after its end date, a server that answers every
  request with one float, a server that does so only for the request that carries
  exactly these two dates, and a server that answers every request with status 400.
\<close>

definition inverted_view :: "unit map_view" where
  "inverted_view = \<lparr>argoFloats = [float_B], filteredFloats = [], loading = True,
     error = None, searchTerm = [], startDate = ''2024-12-31'', endDate = ''2015-01-01''\<rparr>"

definition accepting_server :: "(string \<times> string) list \<Rightarrow> unit fetch_result" where
  "accepting_server params =
     Response True 200 \<lparr>body_status = ''success'', body_floats = [float_A], body_message = None\<rparr>"

definition dated_server :: "(string \<times> string) list \<Rightarrow> unit fetch_result" where
  "dated_server params =
     (if params = [(''start_date'', ''2024-12-31''), (''end_date'', ''2015-01-01'')] then
        Response True 200
          \<lparr>body_status = ''success'', body_floats = [float_A], body_message = None\<rparr>
      else
        Response False 400 \<lparr>body_status = ''error'', body_floats = [], body_message = None\<rparr>)"

definition refusing_server :: "(string \<times> string) list \<Rightarrow> unit fetch_result" where
  "refusing_server params =
     Response False 400 \<lparr>body_status = ''error'', body_floats = [], body_message = None\<rparr>"

section \<open>Properties\<close>

subsection \<open>The search effect selects a subsequence\<close>

lemma white_space_utf8: "map (map of_char) white_space = map utf8 white_space_points"
  by (simp add: white_space_def white_space_points_def utf8_def)

lemma white_space_of_point:
  assumes "cp \<in> set white_space_points"
  shows "map char_of (utf8 cp) \<in> set white_space"
proof -
  have "map (map char_of) (map utf8 white_space_points) =
      map (map char_of) (map (map (of_char :: char \<Rightarrow> nat)) white_space)"
    by (simp only: white_space_utf8)
  also have "\<dots> = white_space"
    by (simp add: map_idI)
  finally have table: "white_space = map (map char_of) (map utf8 white_space_points)"
    by (rule sym)
  from assms have "map char_of (utf8 cp) \<in> set (map (map char_of) (map utf8 white_space_points))"
    by simp
  then show ?thesis
    by (simp only: table [symmetric])
qed

lemma white_space_prefix_free:
  "list_all (\<lambda>w. list_all (\<lambda>w'. prefix w w' = (w = w')) white_space) white_space"
  by code_simp

lemma white_space_same:
  assumes "w \<in> set white_space" and "w' \<in> set white_space" and "prefix w (w' @ r)"
  shows "w = w'"
proof -
  from assms(1,2) have one: "prefix w w' = (w = w')" and two: "prefix w' w = (w' = w)"
    using white_space_prefix_free by (simp_all add: list_all_iff)
  from assms(3) have "prefix w w' \<or> prefix w' w"
    by (auto simp: prefix_append)
  with one two show ?thesis
    by auto
qed

lemma white_space_not_empty: "w \<in> set white_space \<Longrightarrow> w \<noteq> []"
  by (auto simp: white_space_def)

lemma find_Some_holds: "find P xs = Some x \<Longrightarrow> P x \<and> x \<in> set xs"
  by (induction xs) (auto split: if_splits)

lemma leading_space_white:
  assumes "w \<in> set white_space"
  shows "leading_space (w @ r) = length w"
proof -
  from assms have "find (\<lambda>x. prefix x (w @ r)) white_space \<noteq> None"
    by (auto simp: find_None_iff)
  then obtain x where found: "find (\<lambda>x. prefix x (w @ r)) white_space = Some x"
    by blast
  then have "prefix x (w @ r)" and "x \<in> set white_space"
    by (auto dest: find_Some_holds)
  with assms have "x = w"
    by (intro white_space_same)
  with found show ?thesis
    by (simp add: leading_space_def)
qed

lemma trimStart_white:
  assumes "w \<in> set white_space"
  shows "trimStart (w @ r) = trimStart r"
proof -
  from assms have "leading_space (w @ r) = length w" and "length w \<noteq> 0"
    by (simp_all add: leading_space_white white_space_not_empty)
  then show ?thesis
    by (subst trimStart.simps) simp
qed

lemma trim_Nil: "trimStart [] = []" "trimEnd [] = []"
  by code_simp+

lemma trimStart_blank: "set ws \<subseteq> set white_space \<Longrightarrow> trimStart (concat ws) = []"
  by (induction ws) (simp_all add: trim_Nil trimStart_white)

lemma trim_blank: "set ws \<subseteq> set white_space \<Longrightarrow> trim (concat ws) = []"
  by (simp add: trim_def trimStart_blank trim_Nil)

lemma trim_white_space_points:
  assumes "set cps \<subseteq> set white_space_points" and "map of_char s = concat (map utf8 cps)"
  shows "trim s = []"
proof -
  have "s = map char_of (map (of_char :: char \<Rightarrow> nat) s)"
    by (simp add: map_idI)
  also have "\<dots> = concat (map (\<lambda>cp. map char_of (utf8 cp)) cps)"
    by (simp only: assms(2) map_concat map_map comp_def)
  finally have "s = concat (map (\<lambda>cp. map char_of (utf8 cp)) cps)" .
  moreover from assms(1) have "set (map (\<lambda>cp. map char_of (utf8 cp)) cps) \<subseteq> set white_space"
    by (auto dest: white_space_of_point)
  ultimately show ?thesis
    by (simp only: trim_blank)
qed

lemma filteredFloats_search_effect:
  "filteredFloats (search_effect st) =
     (if trim (searchTerm st) = [] then argoFloats st
      else filter (\<lambda>float. search_match float (trim (toLowerCase (searchTerm st))))
             (argoFloats st))"
  by (simp add: search_effect_def Let_def split: option.splits)

lemma argoFloats_search_effect: "argoFloats (search_effect st) = argoFloats st"
  by (simp add: search_effect_def Let_def split: option.splits)

lemma count_list_filter_le: "count_list (filter P xs) x \<le> count_list xs x"
  by (induction xs) auto

text \<open>
  Claim C4. A search term that is empty or consists of white space only filters nothing:
  the floats shown are the collection itself, the same records in the same order. White
  space is any sequence of the characters that \<^verbatim>\<open>trim\<close> strips in JavaScript, given
  by their code points; the term is the UTF-8 text of the sequence.
\<close>

theorem blank_term_no_filtering:
  assumes "set cps \<subseteq> set white_space_points"
    and "map of_char (searchTerm st) = concat (map utf8 cps)"
  shows "filteredFloats (search_effect st) = argoFloats st"
  using assms by (simp add: filteredFloats_search_effect trim_white_space_points)

theorem blank_term_no_filtering_witness:
  "set [0x20, 0xA0, 0x09, 0x2003] \<subseteq> set white_space_points \<and>
   map of_char blank_term = concat (map utf8 [0x20, 0xA0, 0x09, 0x2003]) \<and>
   filteredFloats (search_effect (view0\<lparr>searchTerm := blank_term\<rparr>)) = [float_A, float_B] \<and>
   filteredFloats (search_effect (view0\<lparr>searchTerm := []\<rparr>)) = [float_A, float_B]"
proof -
  have points: "set [0x20, 0xA0, 0x09, 0x2003] \<subseteq> set white_space_points"
    by (simp add: white_space_points_def)
  have enc: "map of_char blank_term = concat (map utf8 [0x20, 0xA0, 0x09, 0x2003])"
    by (simp add: blank_term_def utf8_def)
  have none: "set [] \<subseteq> set white_space_points"
    by simp
  have floats: "argoFloats view0 = [float_A, float_B]"
    by (simp add: view0_def)
  from blank_term_no_filtering [of _ "view0\<lparr>searchTerm := blank_term\<rparr>", OF points]
    blank_term_no_filtering [of "[]" "view0\<lparr>searchTerm := []\<rparr>"] points enc none floats
  show ?thesis
    by simp
qed

text \<open>
  Claim C5. Whatever the date range and the search term of the component are, the floats
  shown form a subsequence of the collection: only records of the collection, in their
  original order, none more often than in the collection (so none duplicated when the
  collection has no duplicates); the collection itself is left as it was.
\<close>

theorem result_is_subsequence:
  "subseq (filteredFloats (search_effect st)) (argoFloats st) \<and>
   set (filteredFloats (search_effect st)) \<subseteq> set (argoFloats st) \<and>
   (\<forall>x. count_list (filteredFloats (search_effect st)) x \<le> count_list (argoFloats st) x) \<and>
   (distinct (argoFloats st) \<longrightarrow> distinct (filteredFloats (search_effect st))) \<and>
   argoFloats (search_effect st) = argoFloats st"
  by (simp add: filteredFloats_search_effect argoFloats_search_effect count_list_filter_le)

theorem result_is_subsequence_witness:
  "distinct (argoFloats (view0\<lparr>searchTerm := ''pacific''\<rparr>)) \<and>
   filteredFloats (search_effect (view0\<lparr>searchTerm := ''pacific''\<rparr>)) = [float_A] \<and>
   subseq [float_A] [float_A, float_B] \<and>
   distinct (filteredFloats (search_effect (view0\<lparr>searchTerm := ''pacific''\<rparr>)))"
proof -
  let ?st = "view0\<lparr>searchTerm := ''pacific''\<rparr>"
  have d: "distinct (argoFloats ?st)"
    by (simp add: view0_def float_A_def float_B_def)
  have c: "argoFloats ?st = [float_A, float_B]"
    by (simp add: view0_def)
  have e: "filteredFloats (search_effect ?st) = [float_A]"
    by code_simp
  from result_is_subsequence [of ?st] d c e show ?thesis
    by simp
qed

subsection \<open>The matcher reads the identifier, the position and the cycle only\<close>

text \<open>
  Claim C9. Two records that agree on id, latitude, longitude and cycle get the same
  verdict for every term, however they differ in temperature, salinity, pressure, time,
  status or any further field (an oxygen value, a region label) of the record extension.
\<close>

theorem search_reads_four_fields:
  fixes a :: "'a argo_float_scheme" and b :: "'b argo_float_scheme"
  assumes "float_id a = float_id b" and "lat a = lat b" and "lon a = lon b"
    and "cycle a = cycle b"
  shows "search_match a t = search_match b t"
  using assms by (simp add: search_match_def cycle_check_def)

theorem search_reads_four_fields_witness:
  "float_id float_A = float_id (float_A\<lparr>temperature := Some 20, status := ''inactive''\<rparr>) \<and>
   lat float_A = lat (float_A\<lparr>temperature := Some 20, status := ''inactive''\<rparr>) \<and>
   lon float_A = lon (float_A\<lparr>temperature := Some 20, status := ''inactive''\<rparr>) \<and>
   cycle float_A = cycle (float_A\<lparr>temperature := Some 20, status := ''inactive''\<rparr>) \<and>
   search_match float_A ''pacific'' =
     search_match (float_A\<lparr>temperature := Some 20, status := ''inactive''\<rparr>) ''pacific''"
  using search_reads_four_fields
    [of float_A "float_A\<lparr>temperature := Some 20, status := ''inactive''\<rparr>" "''pacific''"]
  by simp

subsection \<open>Substrings and formatted numbers\<close>

lemma str_includes_sublist: "str_includes s t \<longleftrightarrow> sublist t s"
  by (induction s) (auto simp: sublist_Cons_right)

lemma str_includes_set: "str_includes s t \<Longrightarrow> set t \<subseteq> set s"
  by (simp add: str_includes_sublist set_mono_sublist)

lemma is_digit_digit_char: "d < 10 \<Longrightarrow> is_digit (digit_char d)"
  by (simp add: is_digit_def digit_char_def)

lemma digits_is_digit: "c \<in> set (digits n) \<Longrightarrow> is_digit c"
proof (induction n arbitrary: c rule: digits.induct)
  case (1 n)
  show ?case
  proof (cases "n < 10")
    case True
    with "1.prems" show ?thesis
      by (simp add: digits.simps [of n] is_digit_digit_char)
  next
    case False
    with "1.prems" have "c \<in> set (digits (n div 10)) \<or> c = digit_char (n mod 10)"
      by (auto simp: digits.simps [of n])
    with False "1.IH" show ?thesis
      by (auto simp: is_digit_digit_char)
  qed
qed

lemma is_digit_zero: "is_digit CHR ''0''"
  by (simp add: is_digit_def)

lemma toFixed_numeric: "c \<in> set (toFixed f x) \<Longrightarrow> numeric_char c"
  by (auto simp: toFixed_def Let_def numeric_char_def is_digit_zero
      dest!: in_set_takeD in_set_dropD digits_is_digit split: if_splits)

lemma toString_numeric: "c \<in> set (toString n) \<Longrightarrow> numeric_char c"
  by (auto simp: toString_def numeric_char_def dest!: digits_is_digit split: if_splits)

lemma coords_numeric:
  "c \<in> set (toFixed f x @ '','' @ toFixed f y) \<Longrightarrow> numeric_char c"
  by (auto simp: numeric_char_def dest: toFixed_numeric)

lemma not_includes_coords:
  "c \<in> set t \<Longrightarrow> \<not> numeric_char c \<Longrightarrow>
   \<not> str_includes (toFixed f x @ '','' @ toFixed f y) t"
  using coords_numeric str_includes_set by blast

lemma not_includes_toString:
  "c \<in> set t \<Longrightarrow> \<not> numeric_char c \<Longrightarrow> \<not> str_includes (toString n) t"
  using toString_numeric str_includes_set by blast

lemma not_cycle_check:
  "c \<in> set t \<Longrightarrow> \<not> numeric_char c \<Longrightarrow> \<not> cycle_check r t"
  by (auto simp: cycle_check_def dest: not_includes_toString split: option.splits)

text \<open>
  A term with a character that no formatted number contains can only match by the
  identifier or by a keyword.
\<close>

lemma search_match_wordy:
  assumes "c \<in> set t" and "\<not> numeric_char c"
  shows "search_match r t \<longleftrightarrow>
     str_includes (toLowerCase (float_id r)) t \<or>
     (case first_keyword t of None \<Rightarrow> False | Some k \<Rightarrow> keyword_holds k (lat r) (lon r))"
  using not_includes_coords [OF assms, of 1 "lat r" "lon r"]
    not_includes_coords [OF assms, of 0 "lat r" "lon r"] not_cycle_check [OF assms, of r]
  by (simp add: search_match_def first_keyword_def)

lemma letter_not_numeric:
  "\<not> numeric_char CHR ''a''" "\<not> numeric_char CHR ''c''" "\<not> numeric_char CHR ''n''"
  "\<not> numeric_char CHR ''o''" "\<not> numeric_char CHR ''e''"
  by (simp_all add: numeric_char_def is_digit_def)

lemma first_keyword_literals:
  "first_keyword ''atlantic'' = Some Atlantic"
  "first_keyword ''pacific'' = Some Pacific"
  "first_keyword ''indian'' = Some Indian"
  "first_keyword ''north'' = Some North"
  "first_keyword ''arctic'' = Some North"
  "first_keyword ''south'' = Some South"
  "first_keyword ''antarctic'' = Some South"
  "first_keyword ''equatorial'' = Some Equatorial"
  "first_keyword ''equator'' = Some Equatorial"
  by (simp_all add: first_keyword_def)

subsection \<open>The keyword rules\<close>

text \<open>
  Claim C2. For a position with \<open>-90 \<le> lat \<le> 90\<close> and \<open>-180 \<le> lon \<le> 180\<close>, each keyword
  is decided by its fixed bounding rule: for a term that is just the keyword, the matcher
  answers by the identifier rule or else by exactly that rule
  (pacific: \<open>lon \<ge> 120 \<or> lon \<le> -70\<close> and \<open>\<bar>lat\<bar> \<le> 60\<close>;
  atlantic: \<open>-70 \<le> lon \<le> 20\<close> and \<open>\<bar>lat\<bar> \<le> 60\<close>;
  indian: \<open>20 \<le> lon \<le> 120\<close> and \<open>-60 \<le> lat \<le> 30\<close>;
  north, arctic: \<open>lat > 23\<close>; south, antarctic: \<open>lat < -23\<close>;
  equatorial, equator: \<open>\<bar>lat\<bar> \<le> 23\<close>).
\<close>

theorem keyword_bounding_rules:
  assumes "-90 \<le> lat r" and "lat r \<le> 90" and "-180 \<le> lon r" and "lon r \<le> 180"
  shows
   "(search_match r ''pacific'' \<longleftrightarrow>
       id_rule r ''pacific'' \<or> (lon r \<ge> 120 \<or> lon r \<le> -70) \<and> \<bar>lat r\<bar> \<le> 60) \<and>
    (search_match r ''atlantic'' \<longleftrightarrow>
       id_rule r ''atlantic'' \<or> -70 \<le> lon r \<and> lon r \<le> 20 \<and> \<bar>lat r\<bar> \<le> 60) \<and>
    (search_match r ''indian'' \<longleftrightarrow>
       id_rule r ''indian'' \<or> 20 \<le> lon r \<and> lon r \<le> 120 \<and> -60 \<le> lat r \<and> lat r \<le> 30) \<and>
    (search_match r ''north'' \<longleftrightarrow> id_rule r ''north'' \<or> lat r > 23) \<and>
    (search_match r ''arctic'' \<longleftrightarrow> id_rule r ''arctic'' \<or> lat r > 23) \<and>
    (search_match r ''south'' \<longleftrightarrow> id_rule r ''south'' \<or> lat r < -23) \<and>
    (search_match r ''antarctic'' \<longleftrightarrow> id_rule r ''antarctic'' \<or> lat r < -23) \<and>
    (search_match r ''equatorial'' \<longleftrightarrow> id_rule r ''equatorial'' \<or> \<bar>lat r\<bar> \<le> 23) \<and>
    (search_match r ''equator'' \<longleftrightarrow> id_rule r ''equator'' \<or> \<bar>lat r\<bar> \<le> 23)"
proof -
  have a: "search_match r t \<longleftrightarrow>
      id_rule r t \<or> (case first_keyword t of None \<Rightarrow> False
                      | Some k \<Rightarrow> keyword_holds k (lat r) (lon r))"
    if "CHR ''a'' \<in> set t \<or> CHR ''o'' \<in> set t" for t
    using that search_match_wordy [of "CHR ''a''" t r] search_match_wordy [of "CHR ''o''" t r]
    by (auto simp: letter_not_numeric id_rule_def)
  show ?thesis
    by (simp add: a first_keyword_literals)
qed

theorem keyword_bounding_rules_witness:
  "-90 \<le> lat float_W \<and> lat float_W \<le> 90 \<and> -180 \<le> lon float_W \<and> lon float_W \<le> 180 \<and>
   search_match float_W ''pacific'' \<and> \<not> search_match float_W ''atlantic'' \<and>
   \<not> search_match float_W ''indian'' \<and> \<not> search_match float_W ''north'' \<and>
   search_match float_W ''south'' \<and> \<not> search_match float_W ''equator''"
proof -
  have range: "-90 \<le> lat float_W" "lat float_W \<le> 90" "-180 \<le> lon float_W"
    "lon float_W \<le> 180"
    by (simp_all add: float_W_def)
  have ids: "\<not> id_rule float_W ''pacific'' \<and> \<not> id_rule float_W ''atlantic'' \<and>
      \<not> id_rule float_W ''indian'' \<and> \<not> id_rule float_W ''north'' \<and>
      \<not> id_rule float_W ''south'' \<and> \<not> id_rule float_W ''equator''"
    by code_simp
  have pos: "lat float_W = -35 \<and> lon float_W = 150"
    by (simp add: float_W_def)
  from keyword_bounding_rules [OF range] ids pos range show ?thesis
    by simp
qed

subsection \<open>The matcher against the disjunction of the five rules\<close>

lemma search_match_chain:
  "search_match r t \<longleftrightarrow>
     id_rule r t \<or> coord_rule r t \<or> cycle_check r t \<or>
     (case first_keyword t of None \<Rightarrow> False | Some k \<Rightarrow> keyword_holds k (lat r) (lon r))"
  by (simp add: search_match_def id_rule_def coord_rule_def first_keyword_def)

lemma cycle_check_eq_rule: "cycle r \<noteq> Some 0 \<Longrightarrow> cycle_check r t = cycle_rule r t"
  by (auto simp: cycle_check_def cycle_rule_def split: option.splits)

lemma keyword_rules_ex:
  "region_rule r t \<or> band_rule r t \<longleftrightarrow> (\<exists>k. keyword_in k t \<and> keyword_holds k (lat r) (lon r))"
proof
  assume "region_rule r t \<or> band_rule r t"
  then show "\<exists>k. keyword_in k t \<and> keyword_holds k (lat r) (lon r)"
    unfolding region_rule_def band_rule_def list_ex_iff by blast
next
  assume "\<exists>k. keyword_in k t \<and> keyword_holds k (lat r) (lon r)"
  then obtain k where k: "keyword_in k t \<and> keyword_holds k (lat r) (lon r)" ..
  then show "region_rule r t \<or> band_rule r t"
    unfolding region_rule_def band_rule_def list_ex_iff by (cases k) auto
qed

lemma first_keyword_Some: "first_keyword t = Some k \<Longrightarrow> keyword_in k t"
  by (auto simp: first_keyword_def split: if_splits)

lemma first_keyword_None: "first_keyword t = None \<Longrightarrow> \<not> keyword_in k t"
  by (cases k) (simp_all add: first_keyword_def split: if_splits)

lemma first_keyword_holds_ex:
  "(case first_keyword t of None \<Rightarrow> False | Some k \<Rightarrow> keyword_holds k la lo) \<Longrightarrow>
   \<exists>k. keyword_in k t \<and> keyword_holds k la lo"
  by (auto split: option.splits dest: first_keyword_Some)

lemma single_keyword_first:
  assumes "\<forall>k k'. keyword_in k t \<and> keyword_in k' t \<longrightarrow> k = k'"
    and "keyword_in k t" and "keyword_holds k la lo"
  shows "case first_keyword t of None \<Rightarrow> False | Some k \<Rightarrow> keyword_holds k la lo"
proof (cases "first_keyword t")
  case None
  with assms(2) show ?thesis
    by (simp add: first_keyword_None)
next
  case (Some k')
  then have "keyword_in k' t"
    by (rule first_keyword_Some)
  with assms(1,2) have "k' = k"
    by blast
  with Some assms(3) show ?thesis
    by simp
qed

lemma north_single_keyword:
  "\<forall>k k'. keyword_in k ''north'' \<and> keyword_in k' ''north'' \<longrightarrow> k = k'"
proof (intro allI impI)
  fix k k' assume "keyword_in k ''north'' \<and> keyword_in k' ''north''"
  then show "k = k'"
    by (cases k; cases k') simp_all
qed

text \<open>
  Claim C1, as stated, fails: the matcher is not the disjunction of the five rules. For
  the term \<open>north pacific\<close> and a float at latitude 30, longitude 0 the latitude-band
  rule succeeds (\<open>north\<close>, \<open>30 > 23\<close>), but the matcher answers by the Pacific box alone,
  which the float is not in.
\<close>

theorem several_keywords_counterexample:
  "spec_match float_N ''north pacific'' \<and> \<not> search_match float_N ''north pacific''"
  by code_simp

text \<open>
  Claim C1, amended. The identifier, coordinate and cycle rules are combined by
  disjunction; of the keywords only the first one the term names, in the order atlantic,
  pacific, indian, north/arctic, south/antarctic, equatorial/equator, is tested. So the
  matcher returns true exactly when one of the first three rules succeeds or the bounding
  rule of that first keyword holds; every match is justified by one of the five rules; and
  for a term that names at most one keyword the matcher is the disjunction of the five
  rules. (Stated for floats whose cycle number is not zero.)
\<close>

theorem first_keyword_decides:
  assumes "cycle r \<noteq> Some 0"
  shows
    "(search_match r t \<longleftrightarrow>
        id_rule r t \<or> coord_rule r t \<or> cycle_rule r t \<or>
        (case first_keyword t of None \<Rightarrow> False | Some k \<Rightarrow> keyword_holds k (lat r) (lon r))) \<and>
     (search_match r t \<longrightarrow> spec_match r t) \<and>
     ((\<forall>k k'. keyword_in k t \<and> keyword_in k' t \<longrightarrow> k = k') \<longrightarrow>
        (search_match r t \<longleftrightarrow> spec_match r t))"
proof -
  define first where "first \<longleftrightarrow>
    (case first_keyword t of None \<Rightarrow> False | Some k \<Rightarrow> keyword_holds k (lat r) (lon r))"
  define some where "some \<longleftrightarrow> (\<exists>k. keyword_in k t \<and> keyword_holds k (lat r) (lon r))"
  define early where "early \<longleftrightarrow> id_rule r t \<or> coord_rule r t \<or> cycle_rule r t"
  have chain: "search_match r t \<longleftrightarrow> early \<or> first"
    unfolding early_def first_def
    using search_match_chain [of r t] cycle_check_eq_rule [OF assms, of t] by simp
  have spec: "spec_match r t \<longleftrightarrow> early \<or> some"
    unfolding early_def some_def
    using keyword_rules_ex [of r t] by (auto simp: spec_match_def)
  have first_some: "first \<Longrightarrow> some"
    unfolding first_def some_def by (rule first_keyword_holds_ex)
  have some_first: "first" if "\<forall>k k'. keyword_in k t \<and> keyword_in k' t \<longrightarrow> k = k'" and "some"
  proof -
    from \<open>some\<close> obtain k where "keyword_in k t" and "keyword_holds k (lat r) (lon r)"
      unfolding some_def by blast
    with that(1) show ?thesis
      unfolding first_def by (rule single_keyword_first)
  qed
  have sound: "search_match r t \<longrightarrow> spec_match r t"
    using chain spec first_some by blast
  have single: "search_match r t \<longleftrightarrow> spec_match r t"
    if "\<forall>k k'. keyword_in k t \<and> keyword_in k' t \<longrightarrow> k = k'"
    using chain spec first_some some_first [OF that] by blast
  from chain sound single show ?thesis
    unfolding early_def first_def by blast
qed

theorem first_keyword_decides_witness:
  "cycle float_N \<noteq> Some 0 \<and>
   first_keyword ''north pacific'' = Some Pacific \<and>
   \<not> keyword_holds Pacific (lat float_N) (lon float_N) \<and>
   \<not> search_match float_N ''north pacific'' \<and>
   search_match float_N ''north'' \<and> spec_match float_N ''north''"
proof -
  have c: "cycle float_N \<noteq> Some 0"
    by (simp add: float_N_def)
  have f: "first_keyword ''north pacific'' = Some Pacific"
    by code_simp
  have h: "\<not> keyword_holds Pacific (lat float_N) (lon float_N)"
    by (simp add: float_N_def)
  have i: "\<not> id_rule float_N ''north pacific'' \<and> \<not> coord_rule float_N ''north pacific'' \<and>
      \<not> cycle_rule float_N ''north pacific''"
    by code_simp
  have s: "spec_match float_N ''north''"
    by code_simp
  from first_keyword_decides [OF c, of "''north pacific''"] f h i
  have "\<not> search_match float_N ''north pacific''"
    by simp
  moreover from first_keyword_decides [OF c, of "''north''"] north_single_keyword s
  have "search_match float_N ''north''"
    by blast
  ultimately show ?thesis
    using c f h s by simp
qed

subsection \<open>The cycle rule\<close>

text \<open>
  Claim C7 at a float whose cycle number is zero: the term \<open>0\<close> is a substring of the
  decimal form of the cycle, yet the cycle test fails, and so does the whole matcher
  (the identifier \<open>A\<close> and the coordinates \<open>11.5,12.5\<close> and \<open>12,13\<close> hold no \<open>0\<close>).
\<close>

theorem cycle_zero_not_matched:
  "cycle float_Z = Some 0 \<and> str_includes (toString 0) ''0'' \<and>
   \<not> cycle_check float_Z ''0'' \<and> \<not> search_match float_Z ''0''"
  by code_simp

subsection \<open>The identifier example\<close>

text \<open>
  Claim C6. A record with the identifier \<open>WMO_2021_PAC_042\<close> matches the term
  \<open>wmo_2021\<close> (also when the term is typed in upper case); it matches \<open>pacific\<close>
  exactly when its position satisfies the Pacific box; at latitude -35, longitude 150 it
  matches \<open>pacific\<close> and does not match \<open>atlantic\<close>. The box alone suffices whatever
  the identifier is: any record \<open>r'\<close> in the box matches \<open>pacific\<close>.
\<close>

theorem wmo_record_matching:
  fixes r :: "'a argo_float_scheme" and r' :: "'b argo_float_scheme"
  assumes "float_id r = ''WMO_2021_PAC_042''"
  shows
    "search_match r ''wmo_2021'' \<and>
     search_match r (trim (toLowerCase ''WMO_2021'')) \<and>
     (search_match r ''pacific'' \<longleftrightarrow> (lon r \<ge> 120 \<or> lon r \<le> -70) \<and> \<bar>lat r\<bar> \<le> 60) \<and>
     (lat r = -35 \<and> lon r = 150 \<longrightarrow>
        search_match r ''pacific'' \<and> \<not> search_match r ''atlantic'') \<and>
     ((lon r' \<ge> 120 \<or> lon r' \<le> -70) \<and> \<bar>lat r'\<bar> \<le> 60 \<longrightarrow> search_match r' ''pacific'')"
proof -
  have lower: "toLowerCase (float_id r) = ''wmo_2021_pac_042''"
    unfolding assms by code_simp
  have raw: "trim (toLowerCase ''WMO_2021'') = ''wmo_2021''"
    by code_simp
  have by_id: "search_match r ''wmo_2021''"
    by (simp add: search_match_def lower)
  have wordy: "search_match x t \<longleftrightarrow>
      str_includes (toLowerCase (float_id x)) t \<or>
      (case first_keyword t of None \<Rightarrow> False | Some k \<Rightarrow> keyword_holds k (lat x) (lon x))"
    if "CHR ''a'' \<in> set t" for t and x :: "'c argo_float_scheme"
    using that by (rule search_match_wordy) (rule letter_not_numeric)
  have pacific: "search_match r ''pacific'' \<longleftrightarrow>
      (lon r \<ge> 120 \<or> lon r \<le> -70) \<and> \<bar>lat r\<bar> \<le> 60"
    by (simp add: wordy first_keyword_literals lower)
  have atlantic: "search_match r ''atlantic'' \<longleftrightarrow>
      -70 \<le> lon r \<and> lon r \<le> 20 \<and> \<bar>lat r\<bar> \<le> 60"
    by (simp add: wordy first_keyword_literals lower)
  have any_id: "(lon r' \<ge> 120 \<or> lon r' \<le> -70) \<and> \<bar>lat r'\<bar> \<le> 60 \<longrightarrow>
      search_match r' ''pacific''"
    by (simp add: wordy first_keyword_literals)
  from by_id raw pacific atlantic any_id show ?thesis
    by simp
qed

theorem wmo_record_matching_witness:
  "float_id float_W = ''WMO_2021_PAC_042'' \<and> lat float_W = -35 \<and> lon float_W = 150 \<and>
   search_match float_W ''wmo_2021'' \<and> search_match float_W ''pacific'' \<and>
   \<not> search_match float_W ''atlantic'' \<and> search_match float_A ''pacific''"
proof -
  have w: "float_id float_W = ''WMO_2021_PAC_042''"
    by (simp add: float_W_def)
  have p: "lat float_W = -35 \<and> lon float_W = 150"
    by (simp add: float_W_def)
  have a: "(lon float_A \<ge> 120 \<or> lon float_A \<le> -70) \<and> \<bar>lat float_A\<bar> \<le> 60"
    by (simp add: float_A_def)
  from wmo_record_matching [OF w, of float_A] w p a show ?thesis
    by simp
qed

subsection \<open>Year extraction\<close>

lemma year_pattern_at_Nil: "\<not> year_pattern_at [] i"
  by (simp add: year_pattern_at_def)

lemma year_pattern_at_Suc: "year_pattern_at (c # cs) (Suc i) = year_pattern_at cs i"
  by (simp add: year_pattern_at_def)

lemma year_pattern_at_length: "year_pattern_at s i \<Longrightarrow> i + 4 \<le> length s"
proof -
  assume "year_pattern_at s i"
  then obtain a b c d rest where "drop i s = a # b # c # d # rest"
    by (auto simp: year_pattern_at_def split: list.splits)
  then have "length (drop i s) = length (a # b # c # d # rest)"
    by (rule arg_cong)
  then show ?thesis
    by simp
qed

lemma word_after_Suc: "word_after (c # cs) (Suc i) = word_after cs i"
  by (simp add: word_after_def ac_simps)

lemma year_token_from_Nil: "\<not> year_token_from pw [] i"
  by (simp add: year_token_from_def year_pattern_at_Nil)

lemma year_token_from_Suc:
  "year_token_from pw (c # cs) (Suc i) = year_token_from (is_word_char c) cs i"
  by (cases i) (simp_all add: year_token_from_def year_pattern_at_Suc word_after_Suc)

lemma year_token_from_0: "year_token_from pw (c # cs) 0 \<longleftrightarrow> \<not> pw \<and> year_at (c # cs)"
  by (auto simp: year_token_from_def year_pattern_at_def word_after_def split: list.splits)

lemma year_token_at_from: "year_token_at s i = year_token_from False s i"
  by (cases i) (simp_all add: year_token_at_def year_token_from_def word_before_def)

text \<open>The search finds the leftmost year token, and nothing else.\<close>

lemma year_search_first:
  "year_token_from pw s i \<Longrightarrow> \<forall>j<i. \<not> year_token_from pw s j \<Longrightarrow>
   year_search pw s = Some (take 4 (drop i s))"
proof (induction s arbitrary: pw i)
  case Nil
  then show ?case
    by (simp add: year_token_from_Nil)
next
  case (Cons c cs)
  show ?case
  proof (cases i)
    case 0
    with Cons.prems(1) have "\<not> pw \<and> year_at (c # cs)"
      by (simp add: year_token_from_0)
    with 0 show ?thesis
      by simp
  next
    case (Suc n)
    with Cons.prems(2) have "\<not> year_token_from pw (c # cs) 0"
      by simp
    then have no: "\<not> (\<not> pw \<and> year_at (c # cs))"
      by (simp add: year_token_from_0)
    from Suc Cons.prems(1) have tok: "year_token_from (is_word_char c) cs n"
      by (simp add: year_token_from_Suc)
    have "\<forall>j<n. \<not> year_token_from (is_word_char c) cs j"
    proof (intro allI impI)
      fix j assume "j < n"
      with Suc have "Suc j < i"
        by simp
      with Cons.prems(2) have "\<not> year_token_from pw (c # cs) (Suc j)"
        by blast
      then show "\<not> year_token_from (is_word_char c) cs j"
        by (simp add: year_token_from_Suc)
    qed
    with tok have "year_search (is_word_char c) cs = Some (take 4 (drop n cs))"
      by (rule Cons.IH)
    moreover have "year_search pw (c # cs) = year_search (is_word_char c) cs"
      by (simp only: year_search.simps no if_False)
    ultimately show ?thesis
      using Suc by simp
  qed
qed

lemma year_search_None:
  "\<forall>i. \<not> year_token_from pw s i \<Longrightarrow> year_search pw s = None"
proof (induction s arbitrary: pw)
  case Nil
  show ?case
    by simp
next
  case (Cons c cs)
  from Cons.prems have "\<not> year_token_from pw (c # cs) 0"
    by blast
  then have no: "\<not> (\<not> pw \<and> year_at (c # cs))"
    by (simp add: year_token_from_0)
  have "\<forall>i. \<not> year_token_from (is_word_char c) cs i"
  proof
    fix i
    from Cons.prems have "\<not> year_token_from pw (c # cs) (Suc i)"
      by blast
    then show "\<not> year_token_from (is_word_char c) cs i"
      by (simp add: year_token_from_Suc)
  qed
  then have "year_search (is_word_char c) cs = None"
    by (rule Cons.IH)
  moreover have "year_search pw (c # cs) = year_search (is_word_char c) cs"
    by (simp only: year_search.simps no if_False)
  ultimately show ?case
    by simp
qed

lemma first_year_token:
  assumes "year_token_at s i"
  shows "\<exists>j\<le>i. year_token_at s j \<and> (\<forall>k<j. \<not> year_token_at s k)"
proof -
  define j where "j = (LEAST j. year_token_at s j)"
  from assms have "year_token_at s j"
    unfolding j_def by (rule LeastI)
  moreover from assms have "j \<le> i"
    unfolding j_def by (rule Least_le)
  moreover have "\<forall>k<j. \<not> year_token_at s k"
    unfolding j_def using not_less_Least by blast
  ultimately show ?thesis
    by blast
qed

lemma extract_first_token:
  assumes "year_token_at s j" and "\<forall>k<j. \<not> year_token_at s k"
  shows "extractDateFilterFromSearch s =
    Some (take 4 (drop j s) @ ''-01-01'', take 4 (drop j s) @ ''-12-31'')"
proof -
  from assms have "year_search False s = Some (take 4 (drop j s))"
    by (intro year_search_first) (simp_all add: year_token_at_from)
  then show ?thesis
    by (simp add: extractDateFilterFromSearch_def)
qed

lemma extract_no_token:
  assumes "\<forall>i. \<not> year_token_at s i"
  shows "extractDateFilterFromSearch s = None"
proof -
  from assms have "year_search False s = None"
    by (intro year_search_None) (simp add: year_token_at_from)
  then show ?thesis
    by (simp add: extractDateFilterFromSearch_def)
qed

lemma dates_search_effect:
  "startDate (search_effect st) =
     (case extractDateFilterFromSearch (searchTerm st) of
        None \<Rightarrow> startDate st | Some d \<Rightarrow> fst d)"
  "endDate (search_effect st) =
     (case extractDateFilterFromSearch (searchTerm st) of
        None \<Rightarrow> endDate st | Some d \<Rightarrow> snd d)"
  by (simp_all add: search_effect_def Let_def split: option.splits)

lemma year_positions:
  "(\<forall>i. year_pattern_at s i \<longrightarrow> Q i) \<longleftrightarrow>
   list_all (\<lambda>i. year_pattern_at s i \<longrightarrow> Q i) [0..<length s]"
proof
  assume "\<forall>i. year_pattern_at s i \<longrightarrow> Q i"
  then show "list_all (\<lambda>i. year_pattern_at s i \<longrightarrow> Q i) [0..<length s]"
    by (simp add: list_all_iff)
next
  assume all: "list_all (\<lambda>i. year_pattern_at s i \<longrightarrow> Q i) [0..<length s]"
  show "\<forall>i. year_pattern_at s i \<longrightarrow> Q i"
  proof (intro allI impI)
    fix i assume p: "year_pattern_at s i"
    then have "i < length s"
      using year_pattern_at_length [of s i] by simp
    with all p show "Q i"
      by (simp add: list_all_iff)
  qed
qed

text \<open>
  Claim C3. When the raw search term contains a year token (the digits \<^verbatim>\<open>20\d{2}\<close> with
  no word character next to them), the extraction returns January 1 to December 31 of the
  leftmost such token, and the search effect replaces the start and end date of the
  component by them, whatever they were before.
\<close>

theorem year_token_sets_range:
  assumes "year_token_at (searchTerm st) i"
  shows "\<exists>j\<le>i. year_token_at (searchTerm st) j \<and>
      (\<forall>k<j. \<not> year_token_at (searchTerm st) k) \<and>
      extractDateFilterFromSearch (searchTerm st) =
        Some (take 4 (drop j (searchTerm st)) @ ''-01-01'',
              take 4 (drop j (searchTerm st)) @ ''-12-31'') \<and>
      startDate (search_effect st) = take 4 (drop j (searchTerm st)) @ ''-01-01'' \<and>
      endDate (search_effect st) = take 4 (drop j (searchTerm st)) @ ''-12-31''"
proof -
  from assms obtain j where j: "j \<le> i" "year_token_at (searchTerm st) j"
    "\<forall>k<j. \<not> year_token_at (searchTerm st) k"
    using first_year_token by blast
  from j(2,3) have "extractDateFilterFromSearch (searchTerm st) =
      Some (take 4 (drop j (searchTerm st)) @ ''-01-01'',
            take 4 (drop j (searchTerm st)) @ ''-12-31'')"
    by (rule extract_first_token)
  with j show ?thesis
    by (auto simp: dates_search_effect)
qed

theorem year_token_sets_range_witness:
  "year_token_at ''2021'' 0 \<and>
   startDate (search_effect
     (view0\<lparr>searchTerm := ''2021'', startDate := ''2019-03-01'', endDate := ''2019-04-30''\<rparr>)) =
     ''2021-01-01'' \<and>
   endDate (search_effect
     (view0\<lparr>searchTerm := ''2021'', startDate := ''2019-03-01'', endDate := ''2019-04-30''\<rparr>)) =
     ''2021-12-31''"
proof -
  let ?st = "view0\<lparr>searchTerm := ''2021'', startDate := ''2019-03-01'',
    endDate := ''2019-04-30''\<rparr>"
  have t: "year_token_at ''2021'' 0"
    by code_simp
  then have "year_token_at (searchTerm ?st) 0"
    by simp
  from year_token_sets_range [OF this] t show ?thesis
    by simp
qed

text \<open>
  Claim C10. When every occurrence of the digits \<^verbatim>\<open>20\d{2}\<close> in the raw term has a word
  character immediately before or after it (as in \<open>wmo_2021\<close> or \<open>12021\<close>), the
  extraction returns no range and the search effect leaves the start and end date as
  they are.
\<close>

theorem attached_year_ignored:
  assumes "\<forall>i. year_pattern_at (searchTerm st) i \<longrightarrow>
    word_before (searchTerm st) i \<or> word_after (searchTerm st) i"
  shows "extractDateFilterFromSearch (searchTerm st) = None \<and>
    startDate (search_effect st) = startDate st \<and> endDate (search_effect st) = endDate st"
proof -
  from assms have "\<forall>i. \<not> year_token_at (searchTerm st) i"
    by (auto simp: year_token_at_def)
  then have "extractDateFilterFromSearch (searchTerm st) = None"
    by (rule extract_no_token)
  then show ?thesis
    by (simp add: dates_search_effect)
qed

theorem attached_year_ignored_witness:
  "year_pattern_at ''wmo_2021'' 4 \<and> word_before ''wmo_2021'' 4 \<and>
   extractDateFilterFromSearch ''wmo_2021'' = None \<and>
   startDate (search_effect (view0\<lparr>searchTerm := ''wmo_2021''\<rparr>)) = ''2015-01-01'' \<and>
   endDate (search_effect (view0\<lparr>searchTerm := ''wmo_2021''\<rparr>)) = ''2024-12-31'' \<and>
   year_pattern_at ''12021'' 1 \<and> word_before ''12021'' 1 \<and>
   extractDateFilterFromSearch ''12021'' = None"
proof -
  have a: "\<forall>i. year_pattern_at ''wmo_2021'' i \<longrightarrow>
      word_before ''wmo_2021'' i \<or> word_after ''wmo_2021'' i"
    unfolding year_positions by code_simp
  have b: "\<forall>i. year_pattern_at ''12021'' i \<longrightarrow>
      word_before ''12021'' i \<or> word_after ''12021'' i"
    unfolding year_positions by code_simp
  have p: "year_pattern_at ''wmo_2021'' 4 \<and> word_before ''wmo_2021'' 4 \<and>
      year_pattern_at ''12021'' 1 \<and> word_before ''12021'' 1"
    by code_simp
  have d: "startDate view0 = ''2015-01-01'' \<and> endDate view0 = ''2024-12-31''"
    by (simp add: view0_def)
  from attached_year_ignored [of "view0\<lparr>searchTerm := ''wmo_2021''\<rparr>"]
    attached_year_ignored [of "view0\<lparr>searchTerm := ''12021''\<rparr>"] a b p d
  show ?thesis
    by simp
qed

subsection \<open>The fetch and the order of the dates\<close>

text \<open>
  Claim C8, as stated, fails: the fetch compares no dates. With a start date after the
  end date the request is sent with both dates, and when the server answers with
  success the floats are stored and no error is set.
\<close>

theorem inverted_range_counterexample:
  "str_less (endDate inverted_view) (startDate inverted_view) \<and>
   request_params inverted_view =
     [(''start_date'', ''2024-12-31''), (''end_date'', ''2015-01-01'')] \<and>
   error (fetchArgoFloats inverted_view accepting_server) = None \<and>
   argoFloats (fetchArgoFloats inverted_view accepting_server) = [float_A]"
  by code_simp

text \<open>
  Claim C8, amended. The fetch does not check the start date against the end date. For
  every date range, in order or not, the request carries the start date as
  \<open>start_date\<close> unless it is the default \<open>2015-01-01\<close>, then the end date as
  \<open>end_date\<close> unless it is the default \<open>2024-12-31\<close>, and nothing else; the outcome
  follows the response to this request alone. When the fetch is rejected, the response
  is not ok or its status is not \<open>success\<close>, an error message is set and the collection
  is left as it was (no partial result); otherwise the collection is replaced by the
  floats of the response and the error is left as it was. The dates themselves are never
  changed and the loading flag is cleared.
\<close>

theorem fetch_outcome_by_response:
  "let request =
         (if startDate st \<noteq> ''2015-01-01'' then [(''start_date'', startDate st)] else []) @
         (if endDate st \<noteq> ''2024-12-31'' then [(''end_date'', endDate st)] else []);
       response = server request;
       st' = fetchArgoFloats st server
   in (fetch_succeeds response \<longrightarrow>
         argoFloats st' = response_floats response \<and> error st' = error st) \<and>
      (\<not> fetch_succeeds response \<longrightarrow>
         error st' \<noteq> None \<and> argoFloats st' = argoFloats st) \<and>
      loading st' = False \<and> startDate st' = startDate st \<and> endDate st' = endDate st"
proof -
  define request where "request =
    (if startDate st \<noteq> ''2015-01-01'' then [(''start_date'', startDate st)] else []) @
    (if endDate st \<noteq> ''2024-12-31'' then [(''end_date'', endDate st)] else [])"
  have sent: "request_params st = request"
    by (simp add: request_params_def request_def)
  have "(fetch_succeeds (server request) \<longrightarrow>
         argoFloats (fetchArgoFloats st server) = response_floats (server request) \<and>
         error (fetchArgoFloats st server) = error st) \<and>
      (\<not> fetch_succeeds (server request) \<longrightarrow>
         error (fetchArgoFloats st server) \<noteq> None \<and>
         argoFloats (fetchArgoFloats st server) = argoFloats st) \<and>
      loading (fetchArgoFloats st server) = False \<and>
      startDate (fetchArgoFloats st server) = startDate st \<and>
      endDate (fetchArgoFloats st server) = endDate st"
    by (cases "server request")
      (simp_all add: fetchArgoFloats_def sent fetch_succeeds_def response_floats_def)
  then show ?thesis
    unfolding Let_def request_def .
qed

theorem fetch_outcome_by_response_witness:
  "str_less (endDate inverted_view) (startDate inverted_view) \<and>
   fetch_succeeds
     (dated_server [(''start_date'', ''2024-12-31''), (''end_date'', ''2015-01-01'')]) \<and>
   \<not> fetch_succeeds (dated_server []) \<and>
   argoFloats (fetchArgoFloats inverted_view dated_server) = [float_A] \<and>
   error (fetchArgoFloats inverted_view dated_server) = None \<and>
   \<not> fetch_succeeds (refusing_server (request_params inverted_view)) \<and>
   error (fetchArgoFloats inverted_view refusing_server) = Some ''Failed to fetch: 400'' \<and>
   argoFloats (fetchArgoFloats inverted_view refusing_server) = [float_B]"
proof -
  have dates: "startDate inverted_view = ''2024-12-31'' \<and> endDate inverted_view = ''2015-01-01''"
    by (simp add: inverted_view_def)
  have a: "fetch_succeeds
      (dated_server [(''start_date'', ''2024-12-31''), (''end_date'', ''2015-01-01'')])"
    by code_simp
  have n: "\<not> fetch_succeeds (dated_server [])"
    by code_simp
  have r: "\<not> fetch_succeeds (refusing_server params)" for params
    by (simp add: refusing_server_def fetch_succeeds_def)
  have f: "response_floats
      (dated_server [(''start_date'', ''2024-12-31''), (''end_date'', ''2015-01-01'')]) = [float_A]"
    by (simp add: response_floats_def dated_server_def)
  have e: "error (fetchArgoFloats inverted_view refusing_server) = Some ''Failed to fetch: 400''"
    by code_simp
  have l: "str_less (endDate inverted_view) (startDate inverted_view)"
    by code_simp
  have b: "argoFloats inverted_view = [float_B] \<and> error inverted_view = None"
    by (simp add: inverted_view_def)
  from fetch_outcome_by_response [of inverted_view dated_server]
    fetch_outcome_by_response [of inverted_view refusing_server] dates a n r f e l b
  show ?thesis
    by (simp add: Let_def)
qed

end
